theory Spec2Isabelle
  imports Complex_Main
begin

section \<open>Tensors, errors and bounding boxes\<close>

text \<open>
  The module \<^verbatim>\<open>_make_dataset.py\<close> works on torch tensors. A tensor of shape
  \<open>C \<times> H \<times> W\<close> is a list of \<open>C\<close> planes, a plane a list of \<open>H\<close> rows, a row a
  list of \<open>W\<close> elements. Every exception the code can raise is a value of \<open>error\<close>,
  and a fallible function returns \<open>error + 'a\<close> with \<open>Inl\<close> the exception.
\<close>

datatype error =
  AssertionError | ValueError | IndexError | TypeError | RuntimeError | ZeroDivisionError

type_synonym 'a plane = "'a list list"
type_synonym 'a tensor3 = "'a list list list"

text \<open>The dictionary \<^verbatim>\<open>dict(left=.., right=.., top=.., bottom=..)\<close> built by
  \<^verbatim>\<open>get_bbox\<close>; the values are Python integers.\<close>

record bbox =
  b_left :: int
  b_right :: int
  b_top :: int
  b_bottom :: int

text \<open>\<^verbatim>\<open>Tensor.numel()\<close> of a stack of planes.\<close>

definition numel :: "'a tensor3 \<Rightarrow> nat" where
  "numel t = sum_list (map (\<lambda>p. sum_list (map length p)) t)"

text \<open>
  \<^verbatim>\<open>torch.where(mask != 0)\<close>: the \<open>(y, x)\<close> indices of the true pixels, in row-major
  order.
\<close>

definition where_true :: "bool plane \<Rightarrow> (nat \<times> nat) list" where
  "where_true m =
     concat (map (\<lambda>y. map (\<lambda>x. (y, x)) (filter (\<lambda>x. m ! y ! x) [0..<length (m ! y)]))
                 [0..<length m])"

text \<open>
  The library function \<^verbatim>\<open>torchvision.ops.masks_to_boxes\<close>, as the library defines it:
  an empty stack gives no box; otherwise every mask gives
  \<open>(min x, min y, max x, max y)\<close> over its true pixels, and \<^verbatim>\<open>torch.min\<close> of no
  element raises \<^verbatim>\<open>RuntimeError\<close>. The maxima are the indices of the last true
  column and row themselves (inclusive).
\<close>

definition mask_to_box :: "bool plane \<Rightarrow> error + (int \<times> int \<times> int \<times> int)" where
  "mask_to_box m =
     (let idx = where_true m; y = map fst idx; x = map snd idx in
      if idx = [] then Inl RuntimeError
      else Inr (int (Min (set x)), int (Min (set y)), int (Max (set x)), int (Max (set y))))"

fun sequence :: "(error + 'a) list \<Rightarrow> error + 'a list" where
  "sequence [] = Inr []"
| "sequence (Inl e # _) = Inl e"
| "sequence (Inr v # rs) = (case sequence rs of Inl e \<Rightarrow> Inl e | Inr vs \<Rightarrow> Inr (v # vs))"

definition masks_to_boxes :: "bool tensor3 \<Rightarrow> error + (int \<times> int \<times> int \<times> int) list" where
  "masks_to_boxes masks =
     (if numel masks = 0 then Inr [] else sequence (map mask_to_box masks))"

text \<open>
  \<^verbatim>\<open>get_bbox\<close> (lines 44-55). \<open>get_bboxes\<close> is the call on a stack of masks
  (\<^verbatim>\<open>masks.ndim = 3\<close>, a list is returned); \<open>get_bbox\<close> is the call on one mask
  (\<^verbatim>\<open>masks.ndim <= 2\<close>: the mask is unsqueezed and \<^verbatim>\<open>ret[0]\<close> is returned, which
  raises \<^verbatim>\<open>IndexError\<close> when the list is empty).
\<close>

definition box_dict :: "int \<times> int \<times> int \<times> int \<Rightarrow> bbox" where
  "box_dict box = (case box of (x1, y1, x2, y2) \<Rightarrow>
     \<lparr>b_left = x1, b_right = x2, b_top = y1, b_bottom = y2\<rparr>)"

definition get_bboxes :: "bool tensor3 \<Rightarrow> error + bbox list" where
  "get_bboxes masks =
     (case masks_to_boxes masks of Inl e \<Rightarrow> Inl e | Inr boxes \<Rightarrow> Inr (map box_dict boxes))"

definition get_bbox :: "bool plane \<Rightarrow> error + bbox" where
  "get_bbox m =
     (case get_bboxes [m] of
        Inl e \<Rightarrow> Inl e
      | Inr [] \<Rightarrow> Inl IndexError
      | Inr (b # _) \<Rightarrow> Inr b)"

text \<open>\<^verbatim>\<open>bbox_to_pascal_voc\<close> (lines 57-60) and \<^verbatim>\<open>bbox_to_yolo\<close> (lines 80-95). The
  floating-point values are modelled by exact reals; a division by a zero image
  dimension raises.\<close>

definition bbox_to_pascal_voc :: "bbox \<Rightarrow> int \<times> int \<times> int \<times> int" where
  "bbox_to_pascal_voc b = (b_left b, b_top b, b_right b, b_bottom b)"

definition bbox_to_yolo :: "bbox \<Rightarrow> real \<Rightarrow> real \<Rightarrow> error + (real \<times> real \<times> real \<times> real)" where
  "bbox_to_yolo b image_width image_height =
     (case bbox_to_pascal_voc b of (x_min, y_min, x_max, y_max) \<Rightarrow>
        let x_center = 0.5 * real_of_int (x_min + x_max);
            y_center = 0.5 * real_of_int (y_min + y_max);
            width = real_of_int (x_max - x_min);
            height = real_of_int (y_max - y_min)
        in if image_width = 0 \<or> image_height = 0 then Inl ZeroDivisionError
           else Inr (x_center / image_width, y_center / image_height,
                     width / image_width, height / image_height))"

section \<open>Connected-component decomposition\<close>

text \<open>
  The library function \<^verbatim>\<open>skimage.measure.label\<close>, called with its defaults (line 112):
  the background value is 0 (false), and \<^verbatim>\<open>connectivity=None\<close> means the full
  connectivity of the input's dimension, which for a plane is the 8-neighbourhood (two
  pixels are neighbours when their rows and their columns each differ by at most one).
  Two true pixels belong to one component when a chain of neighbouring true pixels
  joins them. Components are numbered \<open>1, 2, ...\<close> in the raster order of their first
  pixels; a false pixel gets 0.
\<close>

definition neighbours :: "nat \<times> nat \<Rightarrow> nat \<times> nat \<Rightarrow> bool" where
  "neighbours a b =
     (case a of (r, c) \<Rightarrow> case b of (r', c') \<Rightarrow>
        r \<le> r' + 1 \<and> r' \<le> r + 1 \<and> c \<le> c' + 1 \<and> c' \<le> c + 1)"

definition edges :: "bool plane \<Rightarrow> ((nat \<times> nat) \<times> (nat \<times> nat)) list" where
  "edges p = filter (\<lambda>(a, b). neighbours a b) (List.product (where_true p) (where_true p))"

definition joined :: "bool plane \<Rightarrow> nat \<times> nat \<Rightarrow> nat \<times> nat \<Rightarrow> bool" where
  "joined p a b = ((a, b) \<in> (set (edges p))\<^sup>+)"

definition first_pixel :: "bool plane \<Rightarrow> nat \<times> nat \<Rightarrow> nat \<times> nat" where
  "first_pixel p a = hd (filter (\<lambda>b. joined p b a) (where_true p))"

definition seeds :: "bool plane \<Rightarrow> (nat \<times> nat) list" where
  "seeds p = filter (\<lambda>a. first_pixel p a = a) (where_true p)"

definition index_of :: "'a list \<Rightarrow> 'a \<Rightarrow> nat" where
  "index_of xs x = length (takeWhile (\<lambda>y. y \<noteq> x) xs)"

definition label :: "bool plane \<Rightarrow> nat plane" where
  "label p =
     map (\<lambda>r. map (\<lambda>c. if p ! r ! c then Suc (index_of (seeds p) (first_pixel p (r, c))) else 0)
                   [0..<length (p ! r)])
         [0..<length p]"

text \<open>\<^verbatim>\<open>np.unique\<close> of the flattened array: its distinct values in ascending order.\<close>

definition np_unique :: "nat list \<Rightarrow> nat list" where
  "np_unique xs = sorted_list_of_set (set xs)"

text \<open>
  \<^verbatim>\<open>make_objectwise_mask\<close> (lines 107-116). \<open>objectwise_plane\<close> is the loop body for
  one class plane: label the plane, drop the first of the distinct label values
  (\<^verbatim>\<open>np.unique(objectwise_masks)[1:]\<close>), and compare the label array with each
  remaining value. The returned dictionary is the list of its items in insertion
  order; \<^verbatim>\<open>classwise_masks[i_class]\<close> raises \<^verbatim>\<open>IndexError\<close> past the last plane.
\<close>

definition objectwise_plane :: "bool plane \<Rightarrow> bool tensor3" where
  "objectwise_plane p =
     (let objectwise_masks = label p;
          object_id = drop 1 (np_unique (concat objectwise_masks))
      in map (\<lambda>i. map (map (\<lambda>v. v = i)) objectwise_masks) object_id)"

definition make_objectwise_mask :: "bool tensor3 \<Rightarrow> nat \<Rightarrow> error + (nat \<times> bool tensor3) list" where
  "make_objectwise_mask classwise_masks n_class =
     (if n_class \<le> length classwise_masks
      then Inr (map (\<lambda>i_class. (i_class, objectwise_plane (classwise_masks ! i_class))) [0..<n_class])
      else Inl IndexError)"

text \<open>
  Notions used to state the decomposition properties: the set of true pixels of a
  plane, the component of a pixel under the labelling's neighbourhood, and whether a
  plane has a false pixel or only true ones. A plane is rectangular when its rows
  have one length, as the rows of a tensor have.
\<close>

definition pixels :: "bool plane \<Rightarrow> (nat \<times> nat) set" where
  "pixels m = set (where_true m)"

definition component :: "bool plane \<Rightarrow> nat \<times> nat \<Rightarrow> (nat \<times> nat) set" where
  "component p a = {b. joined p a b}"

definition components :: "bool plane \<Rightarrow> (nat \<times> nat) set set" where
  "components p = component p ` pixels p"

definition has_background :: "bool plane \<Rightarrow> bool" where
  "has_background p = (\<exists>row \<in> set p. \<exists>v \<in> set row. \<not> v)"

definition all_true :: "bool plane \<Rightarrow> bool" where
  "all_true p = (\<forall>row \<in> set p. \<forall>v \<in> set row. v)"

definition rectangular :: "'a plane \<Rightarrow> bool" where
  "rectangular p = (\<forall>row \<in> set p. length row = length (hd p))"

text \<open>
  The 4-neighbourhood (pixels that share an edge) and the chains it gives, as the
  specification's "4-connected blobs" read; \<open>diagonal_plane\<close> has two true pixels
  that touch at a corner only.
\<close>

definition neighbours4 :: "nat \<times> nat \<Rightarrow> nat \<times> nat \<Rightarrow> bool" where
  "neighbours4 a b =
     (case a of (r, c) \<Rightarrow> case b of (r', c') \<Rightarrow>
        (r = r' \<and> c \<le> c' + 1 \<and> c' \<le> c + 1) \<or> (c = c' \<and> r \<le> r' + 1 \<and> r' \<le> r + 1))"

definition joined4 :: "bool plane \<Rightarrow> nat \<times> nat \<Rightarrow> nat \<times> nat \<Rightarrow> bool" where
  "joined4 p a b =
     ((a, b) \<in> (set (filter (\<lambda>(a, b). neighbours4 a b)
                        (List.product (where_true p) (where_true p))))\<^sup>+)"

definition diagonal_plane :: "bool plane" where
  "diagonal_plane = [[True, False], [False, True]]"

text \<open>The mask of the specification's concrete scenario: ten rows of ten pixels, true
  exactly in rows 2, 3, 4 and columns 4, 5, 6. \<open>single_pixel_mask\<close> has one true
  pixel.\<close>

definition scenario_mask :: "bool plane" where
  "scenario_mask =
     map (\<lambda>r. map (\<lambda>c. 2 \<le> r \<and> r < 5 \<and> 4 \<le> c \<and> c < 7) [0..<10]) [0..<(10::nat)]"

definition single_pixel_mask :: "bool plane" where
  "single_pixel_mask = [[False, False, False], [False, True, False], [False, False, False]]"

section \<open>Foreground objects and labels\<close>

text \<open>
  \<^verbatim>\<open>ForegroundObject\<close> (lines 341-366). The object keeps a reference to its
  \<^verbatim>\<open>RepImage\<close>, of which only the fixed \<^verbatim>\<open>height\<close> and \<^verbatim>\<open>width\<close> and the image
  tensor are read; \<open>image_cropped\<close> is a view, kept as the address of the tensor it
  was sliced from (the slice bounds are those of \<open>bbox\<close>).
\<close>

record foreground_object =
  rep_image_height :: nat
  rep_image_width :: nat
  obj_mask :: "bool plane"
  obj_i_class :: nat
  obj_class_name :: string
  obj_bbox :: bbox
  image_cropped :: nat
  mask_cropped :: "bool plane"

text \<open>\<^verbatim>\<open>ForegroundObject.bbox_to_yolo\<close> (lines 383-384).\<close>

definition obj_bbox_to_yolo :: "foreground_object \<Rightarrow> error + (real \<times> real \<times> real \<times> real)" where
  "obj_bbox_to_yolo self =
     bbox_to_yolo (obj_bbox self) (real (rep_image_width self)) (real (rep_image_height self))"

text \<open>
  \<^verbatim>\<open>YoloLabel\<close> (lines 416-455). \<open>bboxes\<close> holds the rows
  \<open>(i_class, x_center, y_center, width, height)\<close>, \<open>dicts\<close> the box dictionaries as
  \<^verbatim>\<open>add\<close> received them; a keyword argument left out is \<open>None\<close>.
\<close>

record yolo_label =
  bboxes :: "(nat \<times> real \<times> real \<times> real \<times> real) list"
  image_width :: real
  image_height :: real
  dicts :: "bbox option list"

definition size_last :: "'a tensor3 \<Rightarrow> nat" where
  "size_last img = (case img of [] \<Rightarrow> 0 | p # _ \<Rightarrow> (case p of [] \<Rightarrow> 0 | r # _ \<Rightarrow> length r))"

definition size_rows :: "'a tensor3 \<Rightarrow> nat" where
  "size_rows img = (case img of [] \<Rightarrow> 0 | p # _ \<Rightarrow> length p)"

definition YoloLabel :: "'a tensor3 \<Rightarrow> yolo_label" where
  "YoloLabel img =
     \<lparr>bboxes = [], image_width = real (size_last img),
      image_height = real (size_rows img), dicts = []\<rparr>"

definition add :: "foreground_object option \<Rightarrow> nat option \<Rightarrow> bbox option \<Rightarrow> yolo_label
    \<Rightarrow> error + yolo_label" where
  "add obj i_cls box self =
     (case obj of
        Some ob \<Rightarrow>
          if \<not> (i_cls = None \<and> box = None) then Inl AssertionError
          else (case obj_bbox_to_yolo ob of
                  Inl e \<Rightarrow> Inl e
                | Inr (x_center, y_center, width, height) \<Rightarrow>
                    Inr (self\<lparr>bboxes := bboxes self @ [(obj_i_class ob, x_center, y_center, width, height)],
                              dicts := dicts self @ [box]\<rparr>))
      | None \<Rightarrow>
          (case (i_cls, box) of
             (Some i, Some b) \<Rightarrow>
               (case bbox_to_yolo b (image_width self) (image_height self) of
                  Inl e \<Rightarrow> Inl e
                | Inr (x_center, y_center, width, height) \<Rightarrow>
                    Inr (self\<lparr>bboxes := bboxes self @ [(i, x_center, y_center, width, height)],
                              dicts := dicts self @ [box]\<rparr>))
           | _ \<Rightarrow> Inl AssertionError))"

text \<open>\<^verbatim>\<open>YoloLabel.to_tensor\<close> (lines 451-452): subscripting an entry that is
  \<^verbatim>\<open>None\<close> raises \<^verbatim>\<open>TypeError\<close>.\<close>

definition tensor_row :: "bbox option \<Rightarrow> error + int list" where
  "tensor_row d =
     (case d of None \<Rightarrow> Inl TypeError
      | Some b \<Rightarrow> Inr [b_left b, b_top b, b_right b, b_bottom b])"

definition to_tensor :: "yolo_label \<Rightarrow> error + int list list" where
  "to_tensor self = sequence (map tensor_row (dicts self))"

text \<open>An object of class 1 with the box \<open>{left: 4, right: 6, top: 2, bottom: 4}\<close> on a
  representative image of ten by ten pixels, and an image of that size.\<close>

definition example_object :: foreground_object where
  "example_object =
     \<lparr>rep_image_height = 10, rep_image_width = 10, obj_mask = scenario_mask, obj_i_class = 1,
      obj_class_name = ''head'', obj_bbox = \<lparr>b_left = 4, b_right = 6, b_top = 2, b_bottom = 4\<rparr>,
      image_cropped = 0, mask_cropped = [[True, True], [True, True]]\<rparr>"

definition example_image :: "nat tensor3" where
  "example_image = replicate 3 (replicate 10 (replicate 10 0))"

section \<open>Synthesis\<close>

text \<open>
  The object count of \<^verbatim>\<open>synthesize\<close> (lines 485 and 492). \<open>sample\<close> is the value
  drawn by \<^verbatim>\<open>rng.normal(loc=6, scale=1.5)\<close>; \<^verbatim>\<open>int\<close> of a float cuts the fraction
  off (towards zero), and \<^verbatim>\<open>range\<close> of a number that is not positive is empty.
  \<open>placement_rounds\<close> is the number of times the body of
  \<^verbatim>\<open>for _ in range(n_obj)\<close> is entered.
\<close>

definition py_int :: "real \<Rightarrow> int" where
  "py_int x = (if x < 0 then \<lceil>x\<rceil> else \<lfloor>x\<rfloor>)"

definition py_range :: "int \<Rightarrow> int list" where
  "py_range n = (if n \<le> 0 then [] else map int [0..<nat n])"

definition n_obj :: "real \<Rightarrow> int" where
  "n_obj sample = py_int sample"

definition placement_rounds :: "real \<Rightarrow> nat" where
  "placement_rounds sample = length (py_range (n_obj sample))"

section \<open>Properties of the decomposition\<close>

subsection \<open>Components and labels\<close>

lemma pixels_iff: "(r, c) \<in> pixels m \<longleftrightarrow> r < length m \<and> c < length (m ! r) \<and> m ! r ! c"
  by (auto simp: pixels_def where_true_def)

lemma distinct_rows:
  "distinct ys \<Longrightarrow> (\<And>y. distinct (g y)) \<Longrightarrow> distinct (concat (map (\<lambda>y. map (Pair y) (g y)) ys))"
proof (induction ys)
  case Nil
  then show ?case by simp
next
  case (Cons y ys)
  have "distinct (map (Pair y) (g y))"
    using Cons.prems(2) by (simp add: distinct_map inj_on_def)
  moreover have "set (map (Pair y) (g y)) \<inter> set (concat (map (\<lambda>y. map (Pair y) (g y)) ys)) = {}"
    using Cons.prems(1) by auto
  ultimately show ?case using Cons by simp
qed

lemma distinct_where_true: "distinct (where_true m)"
  unfolding where_true_def by (rule distinct_rows) simp_all

lemma neighbours_refl: "neighbours a a"
  by (cases a) (simp add: neighbours_def)

lemma neighbours_sym: "neighbours a b \<Longrightarrow> neighbours b a"
  by (cases a, cases b) (simp add: neighbours_def)

lemma edges_iff: "(a, b) \<in> set (edges p) \<longleftrightarrow> a \<in> pixels p \<and> b \<in> pixels p \<and> neighbours a b"
  by (auto simp: edges_def pixels_def)

lemma joined_step: "a \<in> pixels p \<Longrightarrow> b \<in> pixels p \<Longrightarrow> neighbours a b \<Longrightarrow> joined p a b"
  unfolding joined_def by (rule r_into_trancl) (simp add: edges_iff)

lemma joined_refl: "a \<in> pixels p \<Longrightarrow> joined p a a"
  by (simp add: joined_step neighbours_refl)

lemma joined_sym: "joined p a b \<Longrightarrow> joined p b a"
proof -
  have "sym (set (edges p))"
    by (rule symI) (auto simp: edges_iff neighbours_sym)
  then have "sym ((set (edges p))\<^sup>+)" by (rule sym_trancl)
  then show "joined p a b \<Longrightarrow> joined p b a"
    unfolding joined_def by (rule symD)
qed

lemma joined_trans: "joined p a b \<Longrightarrow> joined p b c \<Longrightarrow> joined p a c"
  unfolding joined_def by (rule trancl_trans)

lemma joined_pixels: "joined p a b \<Longrightarrow> a \<in> pixels p \<and> b \<in> pixels p"
proof -
  have "set (edges p) \<subseteq> pixels p \<times> pixels p"
    by (auto simp: edges_iff)
  then have "(set (edges p))\<^sup>+ \<subseteq> pixels p \<times> pixels p"
    by (rule trancl_subset_Sigma)
  then show "joined p a b \<Longrightarrow> a \<in> pixels p \<and> b \<in> pixels p"
    unfolding joined_def by blast
qed

lemma first_pixel_joined:
  assumes "a \<in> pixels p"
  shows "first_pixel p a \<in> pixels p" and "joined p (first_pixel p a) a"
proof -
  let ?xs = "filter (\<lambda>b. joined p b a) (where_true p)"
  have "a \<in> set ?xs" using assms by (simp add: pixels_def joined_refl)
  then have "?xs \<noteq> []" by (metis empty_iff empty_set)
  then have "hd ?xs \<in> set ?xs" by (rule hd_in_set)
  then show "first_pixel p a \<in> pixels p" and "joined p (first_pixel p a) a"
    by (simp_all add: first_pixel_def pixels_def)
qed

lemma first_pixel_cong: "joined p a b \<Longrightarrow> first_pixel p a = first_pixel p b"
proof -
  assume ab: "joined p a b"
  have "(\<lambda>c. joined p c a) = (\<lambda>c. joined p c b)"
    using ab by (auto intro: joined_trans joined_sym)
  then show ?thesis by (simp add: first_pixel_def)
qed

lemma first_pixel_idem: "a \<in> pixels p \<Longrightarrow> first_pixel p (first_pixel p a) = first_pixel p a"
  by (rule first_pixel_cong) (rule first_pixel_joined)

lemma first_pixel_eq_iff:
  assumes "a \<in> pixels p" "b \<in> pixels p"
  shows "first_pixel p a = first_pixel p b \<longleftrightarrow> joined p a b"
proof
  assume eq: "first_pixel p a = first_pixel p b"
  have "joined p a (first_pixel p a)" using assms(1) by (simp add: first_pixel_joined joined_sym)
  moreover have "joined p (first_pixel p a) b" using assms(2) eq by (simp add: first_pixel_joined)
  ultimately show "joined p a b" by (rule joined_trans)
qed (rule first_pixel_cong)

lemma set_seeds: "set (seeds p) = first_pixel p ` pixels p"
  by (auto simp: seeds_def pixels_def[symmetric] first_pixel_joined first_pixel_idem intro: rev_image_eqI)

lemma distinct_seeds: "distinct (seeds p)"
  by (simp add: seeds_def distinct_where_true)

lemma index_of_less: "x \<in> set xs \<Longrightarrow> index_of xs x < length xs"
  by (induction xs) (auto simp: index_of_def)

lemma nth_index_of: "x \<in> set xs \<Longrightarrow> xs ! index_of xs x = x"
  by (induction xs) (auto simp: index_of_def)

lemma index_of_nth: "distinct xs \<Longrightarrow> i < length xs \<Longrightarrow> index_of xs (xs ! i) = i"
  using index_of_less [of "xs ! i" xs] nth_index_of [of "xs ! i" xs]
  by (simp add: nth_eq_iff_index_eq)

lemma label_nth:
  "r < length p \<Longrightarrow> c < length (p ! r) \<Longrightarrow>
   label p ! r ! c = (if p ! r ! c then Suc (index_of (seeds p) (first_pixel p (r, c))) else 0)"
  by (simp add: label_def)

lemma length_label: "length (label p) = length p"
  by (simp add: label_def)

lemma length_label_row: "r < length p \<Longrightarrow> length (label p ! r) = length (p ! r)"
  by (simp add: label_def)

lemma label_range:
  assumes "r < length p" "c < length (p ! r)"
  shows "label p ! r ! c \<le> length (seeds p)"
proof (cases "p ! r ! c")
  case True
  then have "(r, c) \<in> pixels p" using assms by (simp add: pixels_iff)
  then have "first_pixel p (r, c) \<in> set (seeds p)" by (simp add: set_seeds)
  then have "index_of (seeds p) (first_pixel p (r, c)) < length (seeds p)" by (rule index_of_less)
  then show ?thesis using assms True by (simp add: label_nth)
next
  case False
  then show ?thesis using assms by (simp add: label_nth)
qed

lemma seed_pixel:
  assumes "j < length (seeds p)"
  shows "seeds p ! j \<in> pixels p" and "first_pixel p (seeds p ! j) = seeds p ! j"
proof -
  have "seeds p ! j \<in> set (seeds p)" using assms by simp
  then show "seeds p ! j \<in> pixels p" and "first_pixel p (seeds p ! j) = seeds p ! j"
    by (simp_all add: seeds_def pixels_def)
qed

lemma label_seed:
  assumes "j < length (seeds p)" "seeds p ! j = (r, c)"
  shows "r < length p" "c < length (p ! r)" "label p ! r ! c = Suc j"
proof -
  have px: "(r, c) \<in> pixels p" and fp: "first_pixel p (r, c) = (r, c)"
    using seed_pixel [OF assms(1)] assms(2) by simp_all
  show "r < length p" "c < length (p ! r)" using px by (simp_all add: pixels_iff)
  have "index_of (seeds p) (seeds p ! j) = j"
    using assms(1) by (simp add: index_of_nth distinct_seeds)
  then show "label p ! r ! c = Suc j"
    using px fp assms(2) by (simp add: label_nth pixels_iff)
qed

lemma set_concat_nth:
  "set (concat xss) = {v. \<exists>r c. r < length xss \<and> c < length (xss ! r) \<and> v = xss ! r ! c}"
proof (intro equalityI subsetI)
  fix v assume "v \<in> set (concat xss)"
  then obtain xs where "xs \<in> set xss" "v \<in> set xs" by auto
  then obtain r c where "r < length xss" "xs = xss ! r" "c < length xs" "v = xs ! c"
    by (metis in_set_conv_nth)
  then show "v \<in> {v. \<exists>r c. r < length xss \<and> c < length (xss ! r) \<and> v = xss ! r ! c}"
    by blast
next
  fix v assume "v \<in> {v. \<exists>r c. r < length xss \<and> c < length (xss ! r) \<and> v = xss ! r ! c}"
  then obtain r c where "r < length xss" "c < length (xss ! r)" "v = xss ! r ! c" by blast
  then have "xss ! r \<in> set xss" "v \<in> set (xss ! r)" by simp_all
  then show "v \<in> set (concat xss)" by auto
qed

lemma set_concat_label:
  "set (concat (label p)) = {v. \<exists>r c. r < length p \<and> c < length (p ! r) \<and> v = label p ! r ! c}"
  unfolding set_concat_nth [of "label p"]
  by (simp add: length_label length_label_row cong: conj_cong)

lemma has_background_iff:
  "has_background p \<longleftrightarrow> (\<exists>r c. r < length p \<and> c < length (p ! r) \<and> \<not> p ! r ! c)"
  unfolding has_background_def by (metis in_set_conv_nth)

lemma labels_with_background:
  assumes "has_background p"
  shows "set (concat (label p)) = {0..<Suc (length (seeds p))}"
proof (intro equalityI subsetI)
  fix v assume "v \<in> set (concat (label p))"
  then show "v \<in> {0..<Suc (length (seeds p))}"
    unfolding set_concat_label using label_range [of _ p] by (auto simp: less_Suc_eq_le)
next
  fix v assume v: "v \<in> {0..<Suc (length (seeds p))}"
  show "v \<in> set (concat (label p))"
  proof (cases v)
    case 0
    obtain r c where "r < length p" "c < length (p ! r)" "\<not> p ! r ! c"
      using assms by (auto simp: has_background_iff)
    then have "r < length p \<and> c < length (p ! r) \<and> 0 = label p ! r ! c"
      by (simp add: label_nth)
    then show ?thesis unfolding set_concat_label 0 by blast
  next
    case (Suc j)
    then have j: "j < length (seeds p)" using v by simp
    obtain r c where rc: "seeds p ! j = (r, c)" by (cases "seeds p ! j")
    have "r < length p \<and> c < length (p ! r) \<and> Suc j = label p ! r ! c"
      using label_seed [OF j rc] by simp
    then show ?thesis unfolding set_concat_label Suc by blast
  qed
qed

lemma labels_without_background:
  assumes "\<not> has_background p"
  shows "set (concat (label p)) = {1..<Suc (length (seeds p))}"
proof (intro equalityI subsetI)
  fix v assume "v \<in> set (concat (label p))"
  then obtain r c where rc: "r < length p" "c < length (p ! r)" "v = label p ! r ! c"
    unfolding set_concat_label by auto
  then have "p ! r ! c" using assms by (auto simp: has_background_iff)
  then have "0 < v" using rc by (simp add: label_nth)
  moreover have "v \<le> length (seeds p)" using rc label_range by simp
  ultimately show "v \<in> {1..<Suc (length (seeds p))}" by simp
next
  fix v assume v: "v \<in> {1..<Suc (length (seeds p))}"
  then obtain j where vj: "v = Suc j" and j: "j < length (seeds p)"
    by (cases v) auto
  obtain r c where rc: "seeds p ! j = (r, c)" by (cases "seeds p ! j")
  have "r < length p \<and> c < length (p ! r) \<and> Suc j = label p ! r ! c"
    using label_seed [OF j rc] by simp
  then show "v \<in> set (concat (label p))" unfolding set_concat_label vj by blast
qed

lemma object_ids_with_background:
  assumes "has_background p"
  shows "drop 1 (np_unique (concat (label p))) = [1..<Suc (length (seeds p))]"
proof -
  have "np_unique (concat (label p)) = sorted_list_of_set {0..<Suc (length (seeds p))}"
    by (simp only: np_unique_def labels_with_background [OF assms])
  then show ?thesis by (simp add: drop_upt del: upt_Suc)
qed

lemma object_ids_without_background:
  assumes "\<not> has_background p"
  shows "drop 1 (np_unique (concat (label p))) = [2..<Suc (length (seeds p))]"
proof -
  have "np_unique (concat (label p)) = sorted_list_of_set {1..<Suc (length (seeds p))}"
    by (simp only: np_unique_def labels_without_background [OF assms])
  then show ?thesis by (simp add: drop_upt numeral_2_eq_2 del: upt_Suc)
qed

lemma objectwise_plane_with_background:
  assumes "has_background p"
  shows "objectwise_plane p =
         map (\<lambda>i. map (map (\<lambda>v. v = i)) (label p)) [1..<Suc (length (seeds p))]"
  by (simp only: objectwise_plane_def Let_def object_ids_with_background [OF assms])

lemma objectwise_plane_without_background:
  assumes "\<not> has_background p"
  shows "objectwise_plane p =
         map (\<lambda>i. map (map (\<lambda>v. v = i)) (label p)) [2..<Suc (length (seeds p))]"
  by (simp only: objectwise_plane_def Let_def object_ids_without_background [OF assms])

lemma component_cong: "joined p a b \<Longrightarrow> component p a = component p b"
  unfolding component_def by (auto intro: joined_trans joined_sym)

lemma component_self: "a \<in> pixels p \<Longrightarrow> a \<in> component p a"
  by (simp add: component_def joined_refl)

lemma component_subset: "component p a \<subseteq> pixels p"
  by (auto simp: component_def dest: joined_pixels)

lemma seeds_subset: "set (seeds p) \<subseteq> pixels p"
  by (auto simp: seeds_def pixels_def)

lemma components_seeds: "components p = component p ` set (seeds p)"
proof (intro equalityI subsetI)
  fix X assume "X \<in> components p"
  then obtain a where a: "a \<in> pixels p" and X: "X = component p a"
    by (auto simp: components_def)
  have "component p (first_pixel p a) = component p a"
    using a by (intro component_cong first_pixel_joined)
  moreover have "first_pixel p a \<in> set (seeds p)" using a by (simp add: set_seeds)
  ultimately show "X \<in> component p ` set (seeds p)" using X by (metis imageI)
next
  fix X assume "X \<in> component p ` set (seeds p)"
  then show "X \<in> components p" using seeds_subset [of p] by (auto simp: components_def)
qed

lemma inj_on_component_seeds: "inj_on (component p) (set (seeds p))"
proof (rule inj_onI)
  fix s t assume s: "s \<in> set (seeds p)" and t: "t \<in> set (seeds p)"
    and eq: "component p s = component p t"
  have sp: "s \<in> pixels p" "t \<in> pixels p" using s t seeds_subset by auto
  have fs: "first_pixel p s = s" "first_pixel p t = t" using s t by (simp_all add: seeds_def)
  have "s \<in> component p t" using eq component_self [OF sp(1)] by simp
  then have "joined p t s" by (simp add: component_def)
  then have "first_pixel p t = first_pixel p s" by (rule first_pixel_cong)
  then show "s = t" using fs by simp
qed

lemma card_components: "card (components p) = length (seeds p)"
  by (simp add: components_seeds card_image inj_on_component_seeds distinct_card distinct_seeds)

lemma Union_components: "\<Union> (components p) = pixels p"
  using component_self component_subset by (fastforce simp: components_def)

lemma pixels_map_iff:
  "(r, c) \<in> pixels (map (map f) q) \<longleftrightarrow> r < length q \<and> c < length (q ! r) \<and> f (q ! r ! c)"
  by (cases "r < length q") (auto simp: pixels_iff)

lemma pixels_object_mask:
  assumes j: "j < length (seeds p)"
  shows "pixels (map (map (\<lambda>v. v = Suc j)) (label p)) = component p (seeds p ! j)"
proof (intro equalityI subsetI)
  fix a assume a: "a \<in> pixels (map (map (\<lambda>v. v = Suc j)) (label p))"
  obtain r c where rc: "a = (r, c)" by (cases a)
  have in_range: "r < length p" "c < length (p ! r)" and lab: "label p ! r ! c = Suc j"
    using a unfolding rc pixels_map_iff by (auto simp: length_label length_label_row)
  have px: "(r, c) \<in> pixels p" and idx: "index_of (seeds p) (first_pixel p (r, c)) = j"
    using in_range lab by (simp_all add: label_nth pixels_iff split: if_splits)
  have "first_pixel p (r, c) \<in> set (seeds p)" using px by (simp add: set_seeds)
  then have "seeds p ! j = first_pixel p (r, c)" using idx nth_index_of by metis
  then have "joined p (seeds p ! j) (r, c)" using px by (simp add: first_pixel_joined)
  then show "a \<in> component p (seeds p ! j)" by (simp add: rc component_def)
next
  fix a assume "a \<in> component p (seeds p ! j)"
  then have ja: "joined p (seeds p ! j) a" by (simp add: component_def)
  obtain r c where rc: "a = (r, c)" by (cases a)
  have px: "(r, c) \<in> pixels p" using ja joined_pixels rc by blast
  have "first_pixel p (r, c) = first_pixel p (seeds p ! j)"
    using ja rc first_pixel_cong by metis
  then have "first_pixel p (r, c) = seeds p ! j" using seed_pixel(2) [OF j] by simp
  then have "index_of (seeds p) (first_pixel p (r, c)) = j"
    using j by (simp add: index_of_nth distinct_seeds)
  then have "label p ! r ! c = Suc j" using px by (simp add: label_nth pixels_iff)
  then show "a \<in> pixels (map (map (\<lambda>v. v = Suc j)) (label p))"
    using px unfolding rc pixels_map_iff by (simp add: pixels_iff length_label length_label_row)
qed

lemma decomposition_with_background:
  assumes "has_background p"
  shows "map pixels (objectwise_plane p) = map (component p) (seeds p)"
proof -
  let ?k = "length (seeds p)"
  have "map pixels (objectwise_plane p) =
        map (\<lambda>i. pixels (map (map (\<lambda>v. v = i)) (label p))) [1..<Suc ?k]"
    by (simp add: objectwise_plane_with_background [OF assms] comp_def del: upt_Suc)
  also have "\<dots> = map (\<lambda>j. pixels (map (map (\<lambda>v. v = Suc j)) (label p))) [0..<?k]"
    by (simp add: map_Suc_upt [symmetric] comp_def del: upt_Suc)
  also have "\<dots> = map (\<lambda>j. component p (seeds p ! j)) [0..<?k]"
    by (simp add: pixels_object_mask)
  also have "\<dots> = map (component p) (seeds p)"
    by (rule nth_equalityI) simp_all
  finally show ?thesis .
qed

lemma shape_object_mask: "map length (map (map f) q) = map length q"
  by simp

lemma shape_label: "map length (label p) = map length p"
  by (rule nth_equalityI) (simp_all add: length_label length_label_row)

lemma objectwise_plane_shape:
  assumes "m \<in> set (objectwise_plane p)"
  shows "map length m = map length p"
proof -
  obtain i where "m = map (map (\<lambda>v. v = i)) (label p)"
    using assms by (auto simp: objectwise_plane_def Let_def)
  then show ?thesis by (simp only: shape_object_mask shape_label)
qed

lemma objectwise_plane_empty:
  assumes "pixels p = {}"
  shows "objectwise_plane p = []"
proof -
  have "seeds p = []" using assms seeds_subset [of p] by simp
  then show ?thesis
    by (cases "has_background p")
       (simp_all add: objectwise_plane_with_background objectwise_plane_without_background)
qed

lemma map_of_items: "i < n \<Longrightarrow> map_of (map (\<lambda>k. (k, f k)) [0..<n]) i = Some (f i)"
  by (simp add: map_of_map_restrict)

lemma make_objectwise_mask_lookup:
  assumes "make_objectwise_mask classwise_masks n_class = Inr ret" "i_class < n_class"
  shows "map_of ret i_class = Some (objectwise_plane (classwise_masks ! i_class))"
proof -
  have "ret = map (\<lambda>i. (i, objectwise_plane (classwise_masks ! i))) [0..<n_class]"
    using assms(1) by (simp add: make_objectwise_mask_def split: if_splits)
  then show ?thesis using assms(2) by (simp only: map_of_items)
qed

text \<open>
  Claim C5, as the code has it. The labelling joins pixels over the 8-neighbourhood,
  not the 4-neighbourhood, and the first distinct label value is dropped whatever it
  is. For a class plane with at least one false pixel: the returned list for the class
  has exactly one mask per 8-connected component, the pixel sets of the masks are
  exactly the components (each once), and their union is the set of true pixels of
  the plane. Every mask has the shape of the plane, and a plane without true pixels
  gives the empty list.
\<close>

theorem make_objectwise_mask_components:
  assumes "make_objectwise_mask classwise_masks n_class = Inr ret"
    and "i_class < n_class"
  shows "\<exists>ms. map_of ret i_class = Some ms \<and>
           (pixels (classwise_masks ! i_class) = {} \<longrightarrow> ms = []) \<and>
           (\<forall>m \<in> set ms. map length m = map length (classwise_masks ! i_class)) \<and>
           (has_background (classwise_masks ! i_class) \<longrightarrow>
              length ms = card (components (classwise_masks ! i_class)) \<and>
              pixels ` set ms = components (classwise_masks ! i_class) \<and>
              distinct (map pixels ms) \<and>
              \<Union> (pixels ` set ms) = pixels (classwise_masks ! i_class))"
proof -
  let ?p = "classwise_masks ! i_class"
  let ?ms = "objectwise_plane ?p"
  have lookup: "map_of ret i_class = Some ?ms"
    using assms by (rule make_objectwise_mask_lookup)
  have empty: "pixels ?p = {} \<longrightarrow> ?ms = []"
    by (simp add: objectwise_plane_empty)
  have shape: "\<forall>m \<in> set ?ms. map length m = map length ?p"
    by (simp add: objectwise_plane_shape)
  have main: "length ?ms = card (components ?p) \<and> pixels ` set ?ms = components ?p \<and>
              distinct (map pixels ?ms) \<and> \<Union> (pixels ` set ?ms) = pixels ?p"
    if bg: "has_background ?p"
  proof -
    have eq: "map pixels ?ms = map (component ?p) (seeds ?p)"
      using bg by (rule decomposition_with_background)
    have len: "length ?ms = card (components ?p)"
      using arg_cong [OF eq, of length] by (simp add: card_components)
    have img: "pixels ` set ?ms = components ?p"
      using arg_cong [OF eq, of set] by (simp add: components_seeds)
    have dist: "distinct (map pixels ?ms)"
      unfolding eq by (simp add: distinct_map distinct_seeds inj_on_component_seeds)
    show ?thesis using len img dist by (simp add: Union_components)
  qed
  show ?thesis using lookup empty shape main by blast
qed

theorem make_objectwise_mask_components_witness:
  "make_objectwise_mask [[[True, False, True]]] 1 =
     Inr [(0, [[[True, False, False]], [[False, False, True]]])] \<and>
   (0::nat) < 1 \<and>
   has_background ([[[True, False, True]]] ! 0) \<and>
   (\<exists>ms. map_of [(0::nat, [[[True, False, False]], [[False, False, True]]])] 0 = Some ms \<and>
      length ms = card (components ([[[True, False, True]]] ! 0)) \<and>
      pixels ` set ms = components ([[[True, False, True]]] ! 0) \<and>
      distinct (map pixels ms) \<and>
      \<Union> (pixels ` set ms) = pixels ([[[True, False, True]]] ! 0))"
proof -
  have e: "make_objectwise_mask [[[True, False, True]]] 1 =
             Inr [(0, [[[True, False, False]], [[False, False, True]]])]"
    by code_simp
  have l: "(0::nat) < 1" by simp
  have b: "has_background ([[[True, False, True]]] ! 0)"
    by (simp add: has_background_def)
  from make_objectwise_mask_components [OF e l] b e l show ?thesis by blast
qed

text \<open>
  Claim C5 as stated fails: in \<open>diagonal_plane\<close> the true pixels \<open>(0, 0)\<close> and \<open>(1, 1)\<close>
  are not joined over the 4-neighbourhood, so they are two 4-connected blobs, but the
  decomposition returns one mask, the plane itself, which holds both.
\<close>

theorem make_objectwise_mask_four_connected_counterexample:
  "(0, 0) \<in> pixels diagonal_plane \<and> (1, 1) \<in> pixels diagonal_plane \<and>
   \<not> joined4 diagonal_plane (0, 0) (1, 1) \<and>
   make_objectwise_mask [diagonal_plane] 1 = Inr [(0, [diagonal_plane])]"
proof -
  have a: "(0, 0) \<in> pixels diagonal_plane \<and> (1, 1) \<in> pixels diagonal_plane"
    unfolding diagonal_plane_def pixels_def by code_simp
  have b: "\<not> joined4 diagonal_plane (0, 0) (1, 1)"
    unfolding diagonal_plane_def by code_simp
  have c: "make_objectwise_mask [diagonal_plane] 1 = Inr [(0, [diagonal_plane])]"
    unfolding diagonal_plane_def by code_simp
  show ?thesis using a b c by simp
qed

subsection \<open>A plane without background\<close>

lemma all_true_no_background: "all_true p \<Longrightarrow> \<not> has_background p"
  by (auto simp: all_true_def has_background_def)

lemma all_true_pixels: "all_true p \<Longrightarrow> r < length p \<Longrightarrow> c < length (p ! r) \<Longrightarrow> (r, c) \<in> pixels p"
  unfolding all_true_def pixels_iff by (metis nth_mem)

lemma joined_along_row:
  assumes "all_true p" "r < length p"
  shows "c < length (p ! r) \<Longrightarrow> joined p (r, 0) (r, c)"
proof (induction c)
  case 0
  then have "(r, 0) \<in> pixels p" using assms by (simp add: all_true_pixels)
  then show ?case by (rule joined_refl)
next
  case (Suc c)
  have c: "c < length (p ! r)" using Suc.prems by simp
  have a: "(r, c) \<in> pixels p" using assms c by (simp add: all_true_pixels)
  have b: "(r, Suc c) \<in> pixels p" using assms Suc.prems by (simp add: all_true_pixels)
  have "neighbours (r, c) (r, Suc c)" by (simp add: neighbours_def)
  then have "joined p (r, c) (r, Suc c)" using a b by (simp add: joined_step)
  then show ?case using Suc.IH [OF c] joined_trans by blast
qed

lemma joined_along_column:
  assumes "all_true p" "rectangular p" "0 < length (hd p)"
  shows "r < length p \<Longrightarrow> joined p (0, 0) (r, 0)"
proof (induction r)
  case 0
  have "p ! 0 \<in> set p" using 0 by simp
  then have "0 < length (p ! 0)" using assms(2,3) by (simp add: rectangular_def)
  then have "(0, 0) \<in> pixels p" using assms(1) 0 by (simp add: all_true_pixels)
  then show ?case by (rule joined_refl)
next
  case (Suc r)
  have r: "r < length p" using Suc.prems by simp
  have "p ! r \<in> set p" "p ! Suc r \<in> set p" using Suc.prems by simp_all
  then have w: "0 < length (p ! r)" "0 < length (p ! Suc r)"
    using assms(2,3) by (simp_all add: rectangular_def)
  have a: "(r, 0) \<in> pixels p" using assms(1) r w by (simp add: all_true_pixels)
  have b: "(Suc r, 0) \<in> pixels p" using assms(1) Suc.prems w by (simp add: all_true_pixels)
  have "neighbours (r, 0) (Suc r, 0)" by (simp add: neighbours_def)
  then have "joined p (r, 0) (Suc r, 0)" using a b by (simp add: joined_step)
  then show ?case using Suc.IH [OF r] joined_trans by blast
qed

lemma joined_origin:
  assumes "all_true p" "rectangular p" "(r, c) \<in> pixels p"
  shows "joined p (0, 0) (r, c)"
proof -
  have rc: "r < length p" "c < length (p ! r)" using assms(3) by (simp_all add: pixels_iff)
  have "p ! r \<in> set p" using rc by simp
  then have "length (p ! r) = length (hd p)" using assms(2) by (simp add: rectangular_def)
  then have "0 < length (hd p)" using rc by linarith
  then have "joined p (0, 0) (r, 0)" using assms rc by (simp add: joined_along_column)
  moreover have "joined p (r, 0) (r, c)" using assms rc by (simp add: joined_along_row)
  ultimately show ?thesis by (rule joined_trans)
qed

lemma seeds_all_true:
  assumes "all_true p" "rectangular p"
  shows "length (seeds p) \<le> 1"
proof -
  have "first_pixel p a = first_pixel p (0, 0)" if "a \<in> pixels p" for a
    using joined_origin [OF assms] that first_pixel_cong by (cases a) metis
  then have "set (seeds p) \<subseteq> {first_pixel p (0, 0)}"
    by (auto simp: set_seeds)
  then have "card (set (seeds p)) \<le> card {first_pixel p (0, 0)}"
    by (intro card_mono) simp_all
  then show ?thesis by (simp add: distinct_card distinct_seeds)
qed

text \<open>
  Claim C10: for a class plane whose pixels are all true, \<^verbatim>\<open>make_objectwise_mask\<close>
  returns no object mask for that class. All pixels are joined, so the plane has one
  label value at most, and \<^verbatim>\<open>np.unique(...)[1:]\<close> drops it.
\<close>

theorem make_objectwise_mask_all_true:
  assumes "n_class \<le> length classwise_masks"
    and "i_class < n_class"
    and "rectangular (classwise_masks ! i_class)"
    and "all_true (classwise_masks ! i_class)"
  shows "\<exists>ret. make_objectwise_mask classwise_masks n_class = Inr ret \<and>
               map_of ret i_class = Some []"
proof -
  let ?p = "classwise_masks ! i_class"
  obtain ret where ret: "make_objectwise_mask classwise_masks n_class = Inr ret"
    using assms(1) by (simp add: make_objectwise_mask_def)
  have "length (seeds ?p) \<le> 1" by (rule seeds_all_true [OF assms(4,3)])
  then have "[2..<Suc (length (seeds ?p))] = []" by simp
  then have "objectwise_plane ?p = []"
    using objectwise_plane_without_background [OF all_true_no_background [OF assms(4)]] by simp
  then show ?thesis using make_objectwise_mask_lookup [OF ret assms(2)] ret by simp
qed

theorem make_objectwise_mask_all_true_witness:
  "(1::nat) \<le> length [[[True, True], [True, True]]] \<and> (0::nat) < 1 \<and>
   rectangular ([[[True, True], [True, True]]] ! 0) \<and>
   all_true ([[[True, True], [True, True]]] ! 0) \<and>
   (\<exists>ret. make_objectwise_mask [[[True, True], [True, True]]] 1 = Inr ret \<and>
          map_of ret 0 = Some [])"
proof -
  have n: "(1::nat) \<le> length [[[True, True], [True, True]]]" by simp
  have l: "(0::nat) < 1" by simp
  have r: "rectangular ([[[True, True], [True, True]]] ! 0)"
    by (simp add: rectangular_def)
  have t: "all_true ([[[True, True], [True, True]]] ! 0)"
    by (simp add: all_true_def)
  from make_objectwise_mask_all_true [OF n l r t] n l r t show ?thesis by blast
qed

subsection \<open>The scenario mask\<close>

lemma objectwise_plane_single:
  assumes bg: "has_background p"
    and a: "a \<in> pixels p"
    and joined_a: "\<And>b. b \<in> pixels p \<Longrightarrow> joined p a b"
  shows "objectwise_plane p = [p]"
proof -
  have fp: "first_pixel p b = first_pixel p a" if "b \<in> pixels p" for b
    using first_pixel_cong [OF joined_a [OF that]] by simp
  have "first_pixel p ` pixels p = {first_pixel p a}"
    using a fp by blast
  then have "set (seeds p) = {first_pixel p a}"
    by (simp only: set_seeds)
  then have "card (set (seeds p)) = 1" by simp
  then have len: "length (seeds p) = 1"
    by (simp add: distinct_card distinct_seeds)
  have idx: "index_of (seeds p) (first_pixel p b) = 0" if "b \<in> pixels p" for b
  proof -
    have "first_pixel p b \<in> set (seeds p)" using that by (simp add: set_seeds)
    then have "index_of (seeds p) (first_pixel p b) < length (seeds p)" by (rule index_of_less)
    then show ?thesis using len by simp
  qed
  have lab: "(label p ! r ! c = Suc 0) = p ! r ! c" if "r < length p" "c < length (p ! r)" for r c
  proof (cases "p ! r ! c")
    case True
    then have "(r, c) \<in> pixels p" using that by (simp add: pixels_iff)
    then show ?thesis using that True by (simp add: label_nth idx)
  next
    case False
    then show ?thesis using that by (simp add: label_nth)
  qed
  have row: "map (\<lambda>v. v = Suc 0) (label p ! r) = p ! r" if "r < length p" for r
    using that by (intro nth_equalityI) (simp_all add: length_label_row lab)
  have plane: "map (map (\<lambda>v. v = Suc 0)) (label p) = p"
    by (intro nth_equalityI) (simp_all add: length_label row)
  have "objectwise_plane p = map (\<lambda>i. map (map (\<lambda>v. v = i)) (label p)) [1..<Suc 1]"
    using objectwise_plane_with_background [OF bg] len by simp
  then show ?thesis using plane by simp
qed

lemma scenario_pixels:
  "(r, c) \<in> pixels scenario_mask \<longleftrightarrow> 2 \<le> r \<and> r < 5 \<and> 4 \<le> c \<and> c < 7"
  by (auto simp: pixels_iff scenario_mask_def)

lemma scenario_decomposition:
  "make_objectwise_mask [scenario_mask] 1 = Inr [(0, [scenario_mask])]"
proof -
  have "0 < length scenario_mask \<and> 0 < length (scenario_mask ! 0) \<and> \<not> scenario_mask ! 0 ! 0"
    by (simp add: scenario_mask_def)
  then have bg: "has_background scenario_mask"
    unfolding has_background_iff by blast
  have centre: "(3, 5) \<in> pixels scenario_mask" by (simp add: scenario_pixels)
  have "joined scenario_mask (3, 5) b" if "b \<in> pixels scenario_mask" for b
  proof -
    obtain r c where b: "b = (r, c)" by (cases b)
    have "neighbours (3, 5) (r, c)"
      using that unfolding b scenario_pixels by (simp add: neighbours_def)
    then show ?thesis using centre that unfolding b by (rule joined_step [rotated 2])
  qed
  then have "objectwise_plane scenario_mask = [scenario_mask]"
    using bg centre by (intro objectwise_plane_single)
  then show ?thesis by (simp add: make_objectwise_mask_def)
qed

section \<open>Properties of the bounding boxes\<close>

text \<open>The box of a mask is ordered, but not strictly: its right and bottom edges are
  the last true column and row.\<close>

lemma bbox_ordered:
  assumes "get_bbox m = Inr b"
  shows "b_left b \<le> b_right b \<and> b_top b \<le> b_bottom b"
proof -
  let ?idx = "where_true m"
  have ne: "?idx \<noteq> []" and b: "b = box_dict (int (Min (set (map snd ?idx))), int (Min (set (map fst ?idx))),
          int (Max (set (map snd ?idx))), int (Max (set (map fst ?idx))))"
    using assms
    by (auto simp: get_bbox_def get_bboxes_def masks_to_boxes_def mask_to_box_def Let_def
             split: if_splits sum.splits list.splits)
  have "Min (set (map snd ?idx)) \<le> Max (set (map snd ?idx))"
    using ne by (intro Min_le Max_in) simp_all
  moreover have "Min (set (map fst ?idx)) \<le> Max (set (map fst ?idx))"
    using ne by (intro Min_le Max_in) simp_all
  ultimately show ?thesis unfolding b by (simp add: box_dict_def)
qed

text \<open>
  Claim C1, evaluated on the code. The scenario mask decomposes into one object, the
  mask itself; \<^verbatim>\<open>get_bbox\<close> gives \<open>{top: 2, bottom: 4, left: 4, right: 6}\<close>, not
  \<open>{top: 2, bottom: 5, left: 4, right: 7}\<close>, and the yolo encoding at width and height
  10 is \<open>(0.5, 0.3, 0.2, 0.2)\<close>, not \<open>(0.55, 0.35, 0.3, 0.3)\<close>.
\<close>

theorem scenario_box_and_yolo:
  "make_objectwise_mask [scenario_mask] 1 = Inr [(0, [scenario_mask])] \<and>
   get_bbox scenario_mask = Inr \<lparr>b_left = 4, b_right = 6, b_top = 2, b_bottom = 4\<rparr> \<and>
   bbox_to_yolo \<lparr>b_left = 4, b_right = 6, b_top = 2, b_bottom = 4\<rparr> 10 10 =
     Inr (1 / 2, 3 / 10, 1 / 5, 1 / 5)"
proof -
  have box: "get_bbox scenario_mask = Inr \<lparr>b_left = 4, b_right = 6, b_top = 2, b_bottom = 4\<rparr>"
    unfolding scenario_mask_def by code_simp
  have yolo: "bbox_to_yolo \<lparr>b_left = 4, b_right = 6, b_top = 2, b_bottom = 4\<rparr> 10 10 =
                Inr (1 / 2, 3 / 10, 1 / 5, 1 / 5)"
    by (simp add: bbox_to_yolo_def bbox_to_pascal_voc_def)
  show ?thesis using scenario_decomposition box yolo by simp
qed

text \<open>
  Claim C6, evaluated on the code: the mask with the single true pixel \<open>(1, 1)\<close> is not
  empty, and its box has \<open>right - left = 0\<close> and \<open>bottom - top = 0\<close>.
\<close>

theorem single_pixel_box_degenerate:
  "\<exists>b. get_bbox single_pixel_mask = Inr b \<and> b_right b - b_left b = 0 \<and> b_bottom b - b_top b = 0"
proof -
  have "get_bbox single_pixel_mask = Inr \<lparr>b_left = 1, b_right = 1, b_top = 1, b_bottom = 1\<rparr>"
    unfolding single_pixel_mask_def by code_simp
  then show ?thesis by simp
qed

section \<open>Properties of the label\<close>

lemma sequence_snoc_Inr:
  "sequence rs = Inr vs \<Longrightarrow> sequence (rs @ [Inr v]) = Inr (vs @ [v])"
  by (induction rs arbitrary: vs rule: sequence.induct) (auto split: sum.splits)

lemma tensor_rows_snoc_None: "sequence (map tensor_row (ds @ [None])) = Inl TypeError"
proof (induction ds)
  case Nil
  then show ?case by (simp add: tensor_row_def)
next
  case (Cons d ds)
  then show ?case by (cases d) (simp_all add: tensor_row_def)
qed

lemma add_obj_dicts:
  assumes "add (Some ob) None None self = Inr self'"
  shows "dicts self' = dicts self @ [None]"
  using assms by (auto simp: add_def split: sum.splits prod.splits)

lemma to_tensor_add_obj:
  assumes "add (Some ob) None None self = Inr self'"
  shows "to_tensor self' = Inl TypeError"
  unfolding to_tensor_def add_obj_dicts [OF assms] by (rule tensor_rows_snoc_None)

text \<open>With \<^verbatim>\<open>add(i_class=..., bbox=...)\<close> the tensor gains the row
  \<open>(left, top, right, bottom)\<close> at its end.\<close>

lemma to_tensor_add_bbox:
  assumes "add None (Some i) (Some b) self = Inr self'"
    and "to_tensor self = Inr rows"
  shows "to_tensor self' = Inr (rows @ [[b_left b, b_top b, b_right b, b_bottom b]])"
proof -
  have "dicts self' = dicts self @ [Some b]"
    using assms(1) by (auto simp: add_def split: sum.splits prod.splits)
  then show ?thesis
    using sequence_snoc_Inr [OF assms(2) [unfolded to_tensor_def]]
    by (simp add: to_tensor_def tensor_row_def)
qed

text \<open>
  Claim C8, evaluated on the code: after \<^verbatim>\<open>add(obj=...)\<close> on a fresh label the call
  succeeds, and \<^verbatim>\<open>to_tensor\<close> raises \<^verbatim>\<open>TypeError\<close> instead of returning a row, since
  \<^verbatim>\<open>None\<close> was appended to \<open>dicts\<close>.
\<close>

theorem to_tensor_after_add_obj:
  "\<exists>l. add (Some example_object) None None (YoloLabel example_image) = Inr l \<and>
       to_tensor l = Inl TypeError"
  by (simp add: add_def obj_bbox_to_yolo_def example_object_def bbox_to_yolo_def
      bbox_to_pascal_voc_def YoloLabel_def to_tensor_def tensor_row_def)

section \<open>Properties of the object count\<close>

text \<open>
  Claim C7, as the code has it: the sample is cut towards zero, not rounded, so the
  number of placement rounds is the floor of the sample when that is positive and 0
  otherwise.
\<close>

theorem placement_rounds_floor: "int (placement_rounds x) = max \<lfloor>x\<rfloor> 0"
  unfolding placement_rounds_def n_obj_def py_int_def py_range_def
  by (auto simp: max_def)

lemma floor_of_sample: "\<lfloor>23 / 4 :: real\<rfloor> = 5"
  by linarith

lemma round_of_sample: "round (23 / 4 :: real) = 6"
  unfolding round_def by linarith

text \<open>Claim C7 as stated fails at the sample 5.75: five rounds are run, and the sample
  rounds to 6.\<close>

theorem placement_rounds_round_counterexample:
  "int (placement_rounds (23 / 4)) \<noteq> max (round (23 / 4 :: real)) 0"
proof -
  have "placement_rounds (23 / 4) = 5"
    unfolding placement_rounds_def n_obj_def py_int_def py_range_def
    by (simp add: floor_of_sample)
  then show ?thesis by (simp add: round_of_sample)
qed

end
